theory Spec2Isabelle
  imports Main "HOL-Library.Word" "HOL-Library.Multiset"
begin

section \<open>Values shared by both modules\<close>

text \<open>
  The development embeds \<^verbatim>\<open>src/classes/sym_ratchet.ts\<close> (the symmetric ratchet with its
  sending and receiving chains) and the class \<^verbatim>\<open>ECPublicKey\<close>. Every method is
  \<^verbatim>\<open>async\<close>; the calls on one instance are taken one after the other, so a method is a
  function from the state before the call to its outcome and the state after it.

  An \<^verbatim>\<open>ArrayBuffer\<close> is a finite sequence of bytes.
\<close>

type_synonym byte = "8 word"
type_synonym ArrayBuffer = "byte list"

text \<open>
  What a rejected promise or a \<^verbatim>\<open>throw\<close> carries: \<open>Error msg\<close> is
  \<^verbatim>\<open>new Error(msg)\<close>; \<open>TypeError\<close> is the engine's error for reading a property
  of \<^verbatim>\<open>undefined\<close>.
\<close>

datatype error = Error string | TypeError

text \<open>
  Every primitive of the provider is asynchronous; \<^verbatim>\<open>await p\<close> either yields the
  value of \<open>p\<close> or rethrows its rejection, which leaves the enclosing function at once.
\<close>

definition await :: "error + 'a \<Rightarrow> ('a \<Rightarrow> error + 'b) \<Rightarrow> error + 'b" where
  "await p k = (case p of Inl e \<Rightarrow> Inl e | Inr v \<Rightarrow> k v)"

text \<open>
  Reading \<^verbatim>\<open>xs[i]\<close> from a JavaScript array: \<^verbatim>\<open>undefined\<close> (here \<open>None\<close>)
  when \<open>i\<close> is not an index of the array.
\<close>

definition js_index :: "'a list \<Rightarrow> nat \<Rightarrow> 'a option" where
  "js_index xs i = (if i < length xs then Some (xs ! i) else None)"

section \<open>The symmetric ratchet\<close>

text \<open>
  What \<^verbatim>\<open>sym_ratchet.ts\<close> imports and the sources do not hold: the constant
  \<^verbatim>\<open>INFO_MESSAGE_KEYS\<close> and the static methods of \<^verbatim>\<open>Secret\<close>, the provider of the
  cryptographic primitives. They are parameters of the model. A primitive is a function of
  its arguments that returns a value or rejects; \<open>'key\<close> is the type of the provider's
  key handles. A byte string that the code reads out of an array before passing it on may
  be \<^verbatim>\<open>undefined\<close>, so these arguments are options, as is the salt, which the code
  leaves out (\<^verbatim>\<open>void 0\<close>).
\<close>

record 'key ratchet_imports =
  INFO_MESSAGE_KEYS :: ArrayBuffer
  Secret_sign :: "'key \<Rightarrow> ArrayBuffer \<Rightarrow> error + ArrayBuffer"
  Secret_importHMAC :: "ArrayBuffer option \<Rightarrow> error + 'key"
  Secret_importAES :: "ArrayBuffer option \<Rightarrow> error + 'key"
  Secret_HKDF :: "ArrayBuffer option \<Rightarrow> nat \<Rightarrow> 'key option \<Rightarrow> ArrayBuffer \<Rightarrow> error + ArrayBuffer list"
  Secret_encrypt :: "'key \<Rightarrow> ArrayBuffer \<Rightarrow> ArrayBuffer \<Rightarrow> error + ArrayBuffer"
  Secret_decrypt :: "'key \<Rightarrow> ArrayBuffer \<Rightarrow> ArrayBuffer \<Rightarrow> error + ArrayBuffer"

definition CIPHER_KEY_KDF_INPUT :: ArrayBuffer where
  "CIPHER_KEY_KDF_INPUT = [1]"

definition ROOT_KEY_KDF_INPUT :: ArrayBuffer where
  "ROOT_KEY_KDF_INPUT = [2]"

record 'key CipherMessage =
  cipherText :: ArrayBuffer
  hmacKey :: 'key

record 'key SymmetricKDFResult =
  res_rootKey :: 'key
  res_cipher :: ArrayBuffer

text \<open>
  The state of the engine. The counter is a JavaScript number that starts at 0 and is only
  ever incremented: a natural number, taken below \<open>2 ^ 53\<close>, where \<^verbatim>\<open>counter++\<close>
  is exact.
\<close>

record 'key SymmetricRatchet =
  counter :: nat
  rootKey :: 'key

definition new_SendingRatchet :: "'key \<Rightarrow> 'key SymmetricRatchet" where
  "new_SendingRatchet rk = \<lparr>counter = 0, rootKey = rk\<rparr>"

definition calculateKey :: "'key ratchet_imports \<Rightarrow> 'key \<Rightarrow> error + 'key SymmetricKDFResult" where
  "calculateKey P rk =
     await (Secret_sign P rk CIPHER_KEY_KDF_INPUT) (\<lambda>cipherKeyBytes.
     await (Secret_sign P rk ROOT_KEY_KDF_INPUT) (\<lambda>nextRootKeyBytes.
     await (Secret_importHMAC P (Some nextRootKeyBytes)) (\<lambda>k.
     Inr \<lparr>res_rootKey = k, res_cipher = cipherKeyBytes\<rparr>)))"

text \<open>
  \<^verbatim>\<open>click\<close> assigns the new root key and increments the counter only after
  \<^verbatim>\<open>calculateKey\<close> has returned: a rejection leaves the state as it was. The state is a
  record scheme, so that the same \<^verbatim>\<open>click\<close> serves the receiving chain and its cache.
\<close>

definition click ::
  "'key ratchet_imports \<Rightarrow> ('key, 'm) SymmetricRatchet_scheme
     \<Rightarrow> (error + ArrayBuffer) \<times> ('key, 'm) SymmetricRatchet_scheme" where
  "click P this =
     (case calculateKey P (rootKey this) of
        Inl e \<Rightarrow> (Inl e, this)
      | Inr res \<Rightarrow> (Inr (res_cipher res), this\<lparr>rootKey := res_rootKey res, counter := counter this + 1\<rparr>))"

definition SendingRatchet_encrypt ::
  "'key ratchet_imports \<Rightarrow> 'key SymmetricRatchet \<Rightarrow> ArrayBuffer
     \<Rightarrow> (error + 'key CipherMessage) \<times> 'key SymmetricRatchet" where
  "SendingRatchet_encrypt P this message =
     (case click P this of
        (Inl e, this') \<Rightarrow> (Inl e, this')
      | (Inr cipherKey, this') \<Rightarrow>
          (await (Secret_HKDF P (Some cipherKey) 3 None (INFO_MESSAGE_KEYS P)) (\<lambda>keys.
           await (Secret_importAES P (js_index keys 0)) (\<lambda>aesKey.
           await (Secret_importHMAC P (js_index keys 1)) (\<lambda>hmacKey.
           await (case js_index keys 2 of None \<Rightarrow> Inl TypeError | Some k2 \<Rightarrow> Inr (take 16 k2)) (\<lambda>iv.
           await (Secret_encrypt P aesKey message iv) (\<lambda>cipherText.
           Inr \<lparr>cipherText = cipherText, hmacKey = hmacKey\<rparr>))))), this'))"

record 'key ReceivingRatchet = "'key SymmetricRatchet" +
  keys :: "ArrayBuffer list"

definition new_ReceivingRatchet :: "'key \<Rightarrow> 'key ReceivingRatchet" where
  "new_ReceivingRatchet rk = \<lparr>counter = 0, rootKey = rk, keys = []\<rparr>"

text \<open>
  The loop of \<^verbatim>\<open>getKey\<close>, for a requested counter that is a step counter (a natural
  number). A rejected advance leaves the loop with the keys of the earlier iterations
  already in the cache. The read \<^verbatim>\<open>this.keys[counter]\<close> after the loop is
  \<^verbatim>\<open>undefined\<close> when the cache is shorter than the counter says.
\<close>

function getKey ::
  "'key ratchet_imports \<Rightarrow> 'key ReceivingRatchet \<Rightarrow> nat
     \<Rightarrow> (error + ArrayBuffer option) \<times> 'key ReceivingRatchet" where
  "getKey P this c =
     (if counter this \<le> c then
        (case click P this of
           (Inl e, this') \<Rightarrow> (Inl e, this')
         | (Inr cipherKey, this') \<Rightarrow> getKey P (this'\<lparr>keys := keys this' @ [cipherKey]\<rparr>) c)
      else (Inr (js_index (keys this) c), this))"
  by pat_completeness auto
termination
  by (relation "measure (\<lambda>(P, this, c). Suc c - counter this)")
     (auto simp: click_def split: sum.splits)

declare getKey.simps [simp del]

definition ReceivingRatchet_decrypt ::
  "'key ratchet_imports \<Rightarrow> 'key ReceivingRatchet \<Rightarrow> ArrayBuffer \<Rightarrow> nat
     \<Rightarrow> (error + 'key CipherMessage) \<times> 'key ReceivingRatchet" where
  "ReceivingRatchet_decrypt P this message c =
     (case getKey P this c of
        (Inl e, this') \<Rightarrow> (Inl e, this')
      | (Inr cipherKey, this') \<Rightarrow>
          (await (Secret_HKDF P cipherKey 3 None (INFO_MESSAGE_KEYS P)) (\<lambda>keys.
           await (Secret_importAES P (js_index keys 0)) (\<lambda>aesKey.
           await (Secret_importHMAC P (js_index keys 1)) (\<lambda>hmacKey.
           await (case js_index keys 2 of None \<Rightarrow> Inl TypeError | Some k2 \<Rightarrow> Inr (take 16 k2)) (\<lambda>iv.
           await (Secret_decrypt P aesKey message iv) (\<lambda>cipherText.
           Inr \<lparr>cipherText = cipherText, hmacKey = hmacKey\<rparr>))))), this'))"

section \<open>The elliptic-curve public key\<close>

text \<open>
  A \<^verbatim>\<open>CryptoKey\<close> is a handle of the provider: the code reads its algorithm name
  and its type (\<^verbatim>\<open>"public"\<close>, \<^verbatim>\<open>"private"\<close> or \<^verbatim>\<open>"secret"\<close>), everything else
  about it is opaque (\<open>handle\<close>).
\<close>

datatype KeyType = type_public | type_private | type_secret

record 'h CryptoKey =
  algorithm_name :: string
  type :: KeyType
  handle :: 'h

datatype ECKeyType = ECDH | ECDSA

fun ECKeyType_name :: "ECKeyType \<Rightarrow> string" where
  "ECKeyType_name ECDH = ''ECDH''"
| "ECKeyType_name ECDSA = ''ECDSA''"

record JsonWebKey =
  jwk_kty :: string
  jwk_crv :: string
  jwk_x :: string
  jwk_y :: string

record EcKeyImportParams =
  params_name :: string
  params_namedCurve :: string

text \<open>
  What the class imports and the sources do not hold: the name of the curve, the provider's
  \<^verbatim>\<open>crypto.subtle\<close> (asynchronous, so each call returns or rejects), the digest of
  \<^verbatim>\<open>Secret\<close> and the conversions of \<^verbatim>\<open>Convert\<close>. They are parameters of the model.
\<close>

record 'h key_imports =
  Curve_NAMED_CURVE :: string
  subtle_exportKey :: "string \<Rightarrow> 'h CryptoKey \<Rightarrow> error + JsonWebKey"
  subtle_importKey ::
    "string \<Rightarrow> JsonWebKey \<Rightarrow> EcKeyImportParams \<Rightarrow> bool \<Rightarrow> string list \<Rightarrow> error + 'h CryptoKey"
  Secret_digest :: "string \<Rightarrow> ArrayBuffer \<Rightarrow> error + ArrayBuffer"
  Convert_FromBase64Url :: "string \<Rightarrow> ArrayBuffer"
  Convert_ToBase64Url :: "ArrayBuffer \<Rightarrow> string"
  Convert_ToBinary :: "ArrayBuffer \<Rightarrow> string"
  Convert_FromBinary :: "string \<Rightarrow> ArrayBuffer"
  Convert_ToHex :: "ArrayBuffer \<Rightarrow> string"

text \<open>
  \<^verbatim>\<open>String.prototype.toUpperCase\<close> on the ASCII letters; algorithm names are ASCII.
\<close>

definition upper_char :: "char \<Rightarrow> char" where
  "upper_char c =
     (case map_of (zip ''abcdefghijklmnopqrstuvwxyz'' ''ABCDEFGHIJKLMNOPQRSTUVWXYZ'') c of
        Some u \<Rightarrow> u
      | None \<Rightarrow> c)"

definition toUpperCase :: "string \<Rightarrow> string" where
  "toUpperCase s = map upper_char s"

record 'h ECPublicKey =
  id_hex :: string
  key :: "'h CryptoKey"
  serialized :: ArrayBuffer

definition ECPublicKey_serialize :: "'h ECPublicKey \<Rightarrow> ArrayBuffer" where
  "ECPublicKey_serialize this = serialized this"

definition ECPublicKey_thumbprint :: "'h key_imports \<Rightarrow> 'h ECPublicKey \<Rightarrow> error + string" where
  "ECPublicKey_thumbprint I this =
     (let bytes = ECPublicKey_serialize this in
      await (Secret_digest I ''SHA-1'' bytes) (\<lambda>thumbprint.
      Inr (Convert_ToHex I thumbprint)))"

text \<open>The two errors \<^verbatim>\<open>create\<close> throws, under the names the specification gives them.\<close>

definition UnsupportedAlgorithmError :: error where
  "UnsupportedAlgorithmError = Error ''Error: Unsupported asymmetric key algorithm.''"

definition InvalidKeyTypeError :: error where
  "InvalidKeyTypeError = Error ''Error: Expected key type to be public but it was not.''"

text \<open>
  \<^verbatim>\<open>create\<close> allocates \<^verbatim>\<open>res\<close> first and fills its fields one by one; the
  identifier is assigned last, from \<^verbatim>\<open>res.thumbprint()\<close>, which reads the
  serialization only. Until then the record holds the empty string in its place.
\<close>

definition ECPublicKey_create :: "'h key_imports \<Rightarrow> 'h CryptoKey \<Rightarrow> error + 'h ECPublicKey" where
  "ECPublicKey_create I publicKey =
     (let algName = toUpperCase (algorithm_name publicKey) in
      if \<not> (algName = ''ECDH'' \<or> algName = ''ECDSA'') then Inl UnsupportedAlgorithmError
      else if type publicKey \<noteq> type_public then Inl InvalidKeyTypeError
      else
        await (subtle_exportKey I ''jwk'' publicKey) (\<lambda>jwk.
        let x = Convert_FromBase64Url I (jwk_x jwk);
            y = Convert_FromBase64Url I (jwk_y jwk);
            xy = Convert_ToBinary I x @ Convert_ToBinary I y;
            res = \<lparr>id_hex = [], key = publicKey, serialized = Convert_FromBinary I xy\<rparr>
        in await (ECPublicKey_thumbprint I res) (\<lambda>t. Inr (res\<lparr>id_hex := t\<rparr>))))"

definition ECPublicKey_importKey ::
  "'h key_imports \<Rightarrow> ArrayBuffer \<Rightarrow> ECKeyType \<Rightarrow> error + 'h ECPublicKey" where
  "ECPublicKey_importKey I bytes t =
     (let x = Convert_ToBase64Url I (take 32 bytes);
          y = Convert_ToBase64Url I (drop 32 bytes);
          jwk = \<lparr>jwk_kty = ''EC'', jwk_crv = Curve_NAMED_CURVE I, jwk_x = x, jwk_y = y\<rparr>;
          usage = (if t = ECDSA then [''verify''] else [''deriveBits''])
      in await (subtle_importKey I ''jwk'' jwk
                  \<lparr>params_name = ECKeyType_name t, params_namedCurve = Curve_NAMED_CURVE I\<rparr> True usage)
           (\<lambda>k. ECPublicKey_create I k))"

text \<open>
  Modelled from the spec: \<^verbatim>\<open>isEqual\<close> of the \<^verbatim>\<open>utils\<close> module, which is not among
  the sources. The specification has the equality of two identities decided by whether their
  serializations are byte-identical: same length, and the same byte at every position.
\<close>

fun utils_isEqual :: "ArrayBuffer \<Rightarrow> ArrayBuffer \<Rightarrow> bool" where
  "utils_isEqual [] [] = True"
| "utils_isEqual (a # as) (b # bs) = (a = b \<and> utils_isEqual as bs)"
| "utils_isEqual _ _ = False"

text \<open>
  The argument of \<^verbatim>\<open>isEqual\<close> has type \<^verbatim>\<open>any\<close>: the values that matter to the
  guard \<^verbatim>\<open>other && other instanceof ECPublicKey\<close> are the falsy ones, the instances of
  the class, and every other object.
\<close>

datatype 'h any =
    Undefined
  | Null
  | Boolean bool
  | Number int
  | String string
  | Object
  | Instance "'h ECPublicKey"

fun truthy :: "'h any \<Rightarrow> bool" where
  "truthy Undefined = False"
| "truthy Null = False"
| "truthy (Boolean b) = b"
| "truthy (Number n) = (n \<noteq> 0)"
| "truthy (String s) = (s \<noteq> [])"
| "truthy Object = True"
| "truthy (Instance k) = True"

fun instanceof_ECPublicKey :: "'h any \<Rightarrow> bool" where
  "instanceof_ECPublicKey (Instance k) = True"
| "instanceof_ECPublicKey _ = False"

definition ECPublicKey_isEqual :: "'h ECPublicKey \<Rightarrow> 'h any \<Rightarrow> bool" where
  "ECPublicKey_isEqual this other =
     (if \<not> (truthy other \<and> instanceof_ECPublicKey other) then False
      else (case other of
              Instance k \<Rightarrow> utils_isEqual (serialized this) (serialized k)
            | _ \<Rightarrow> False))"

section \<open>Chains of derivations and sequences of calls\<close>

text \<open>
  What \<open>n\<close> successive advances derive from a root key \<open>rk\<close>, as far as the provider
  lets them succeed: \<open>root_at P rk n\<close> is the root key after \<open>n\<close> advances and
  \<open>key_at P rk n\<close> the cipher key of the advance that follows them, each with the
  rejection of the first advance that fails; \<open>chain_keys P rk n\<close> and \<open>chain_root P rk n\<close>
  are the cipher keys produced, and the root key reached, by the advances among the first
  \<open>n\<close> that succeed before one fails.
\<close>

fun root_at :: "'key ratchet_imports \<Rightarrow> 'key \<Rightarrow> nat \<Rightarrow> error + 'key" where
  "root_at P rk 0 = Inr rk"
| "root_at P rk (Suc n) = await (calculateKey P rk) (\<lambda>res. root_at P (res_rootKey res) n)"

fun key_at :: "'key ratchet_imports \<Rightarrow> 'key \<Rightarrow> nat \<Rightarrow> error + ArrayBuffer" where
  "key_at P rk 0 = await (calculateKey P rk) (\<lambda>res. Inr (res_cipher res))"
| "key_at P rk (Suc n) = await (calculateKey P rk) (\<lambda>res. key_at P (res_rootKey res) n)"

fun chain_keys :: "'key ratchet_imports \<Rightarrow> 'key \<Rightarrow> nat \<Rightarrow> ArrayBuffer list" where
  "chain_keys P rk 0 = []"
| "chain_keys P rk (Suc n) =
     (case calculateKey P rk of
        Inl e \<Rightarrow> []
      | Inr res \<Rightarrow> res_cipher res # chain_keys P (res_rootKey res) n)"

fun chain_root :: "'key ratchet_imports \<Rightarrow> 'key \<Rightarrow> nat \<Rightarrow> 'key" where
  "chain_root P rk 0 = rk"
| "chain_root P rk (Suc n) =
     (case calculateKey P rk of
        Inl e \<Rightarrow> rk
      | Inr res \<Rightarrow> chain_root P (res_rootKey res) n)"

text \<open>What \<^verbatim>\<open>getKey(c)\<close> returns when the cipher key of step \<open>c\<close> is \<open>r\<close>.\<close>

definition key_result :: "error + ArrayBuffer \<Rightarrow> error + ArrayBuffer option" where
  "key_result r = (case r of Inl e \<Rightarrow> Inl e | Inr k \<Rightarrow> Inr (Some k))"

text \<open>A sending chain encrypting a list of messages, one call after the other.\<close>

fun encrypt_all ::
  "'key ratchet_imports \<Rightarrow> 'key SymmetricRatchet \<Rightarrow> ArrayBuffer list
     \<Rightarrow> (error + 'key CipherMessage) list \<times> 'key SymmetricRatchet" where
  "encrypt_all P this [] = ([], this)"
| "encrypt_all P this (m # ms) =
     (case SendingRatchet_encrypt P this m of
        (r, this') \<Rightarrow> (case encrypt_all P this' ms of (rs, this'') \<Rightarrow> (r # rs, this'')))"

text \<open>A receiving chain asked for a list of counters, one call after the other.\<close>

fun getKey_all ::
  "'key ratchet_imports \<Rightarrow> 'key ReceivingRatchet \<Rightarrow> nat list
     \<Rightarrow> (error + ArrayBuffer option) list \<times> 'key ReceivingRatchet" where
  "getKey_all P this [] = ([], this)"
| "getKey_all P this (c # cs) =
     (case getKey P this c of
        (r, this') \<Rightarrow> (case getKey_all P this' cs of (rs, this'') \<Rightarrow> (r # rs, this'')))"

text \<open>
  The calls a receiving chain takes, and the instance that a history of such calls, each
  returning or throwing, leaves behind a chain seeded with \<open>rk\<close>.
\<close>

datatype call = GetKey nat | Decrypt ArrayBuffer nat

fun perform :: "'key ratchet_imports \<Rightarrow> 'key ReceivingRatchet \<Rightarrow> call \<Rightarrow> 'key ReceivingRatchet" where
  "perform P this (GetKey c) = snd (getKey P this c)"
| "perform P this (Decrypt message c) = snd (ReceivingRatchet_decrypt P this message c)"

definition receiver_after :: "'key ratchet_imports \<Rightarrow> 'key \<Rightarrow> call list \<Rightarrow> 'key ReceivingRatchet" where
  "receiver_after P rk history = foldl (perform P) (new_ReceivingRatchet rk) history"

text \<open>
  The state of a receiving chain seeded with \<open>rk\<close> that has advanced \<open>counter this\<close>
  times: its root key and its cache are the ones the chain of \<open>rk\<close> derives.
\<close>

definition chain_state :: "'key ratchet_imports \<Rightarrow> 'key \<Rightarrow> 'key ReceivingRatchet \<Rightarrow> bool" where
  "chain_state P rk this \<longleftrightarrow>
     root_at P rk (counter this) = Inr (rootKey this) \<and>
     length (keys this) = counter this \<and>
     list_all (\<lambda>i. key_at P rk i = Inr (keys this ! i)) [0..<counter this]"

section \<open>The two halves of a message's key expansion\<close>

text \<open>
  Lines 108 to 111 of \<^verbatim>\<open>encrypt\<close> and lines 130 to 133 of \<^verbatim>\<open>decrypt\<close>, each
  taken on its own: the expansion of a cipher key into the AES key, the HMAC key and the
  initialisation vector.
\<close>

definition encrypt_keys ::
  "'key ratchet_imports \<Rightarrow> ArrayBuffer option \<Rightarrow> error + 'key \<times> 'key \<times> ArrayBuffer" where
  "encrypt_keys P cipherKey =
     await (Secret_HKDF P cipherKey 3 None (INFO_MESSAGE_KEYS P)) (\<lambda>keys.
     await (Secret_importAES P (js_index keys 0)) (\<lambda>aesKey.
     await (Secret_importHMAC P (js_index keys 1)) (\<lambda>hmacKey.
     await (case js_index keys 2 of None \<Rightarrow> Inl TypeError | Some k2 \<Rightarrow> Inr (take 16 k2)) (\<lambda>iv.
     Inr (aesKey, hmacKey, iv)))))"

definition decrypt_keys ::
  "'key ratchet_imports \<Rightarrow> ArrayBuffer option \<Rightarrow> error + 'key \<times> 'key \<times> ArrayBuffer" where
  "decrypt_keys P cipherKey =
     await (Secret_HKDF P cipherKey 3 None (INFO_MESSAGE_KEYS P)) (\<lambda>keys.
     await (Secret_importAES P (js_index keys 0)) (\<lambda>aesKey.
     await (Secret_importHMAC P (js_index keys 1)) (\<lambda>hmacKey.
     await (case js_index keys 2 of None \<Rightarrow> Inl TypeError | Some k2 \<Rightarrow> Inr (take 16 k2)) (\<lambda>iv.
     Inr (aesKey, hmacKey, iv)))))"

section \<open>A small provider to run the definitions on\<close>

text \<open>
  Keys are byte strings. Signing prefixes the key with the data, the key derivation tags
  its input with the number of each output, and the cipher prefixes the plain text with
  the initialisation vector and the key, which decryption checks and removes.
\<close>

definition demo_import :: "ArrayBuffer option \<Rightarrow> error + ArrayBuffer" where
  "demo_import b = (case b of None \<Rightarrow> Inl TypeError | Some v \<Rightarrow> Inr v)"

definition demo_HKDF ::
  "ArrayBuffer option \<Rightarrow> nat \<Rightarrow> ArrayBuffer option \<Rightarrow> ArrayBuffer \<Rightarrow> error + ArrayBuffer list" where
  "demo_HKDF ikm n salt info =
     (case ikm of
        None \<Rightarrow> Inl TypeError
      | Some v \<Rightarrow> Inr (map (\<lambda>i. of_nat (Suc i) # info @ v) [0..<n]))"

definition demo_decrypt :: "ArrayBuffer \<Rightarrow> ArrayBuffer \<Rightarrow> ArrayBuffer \<Rightarrow> error + ArrayBuffer" where
  "demo_decrypt k ct iv =
     (if take (length iv + length k) ct = iv @ k then Inr (drop (length iv + length k) ct)
      else Inl (Error ''DecryptionError''))"

definition demo :: "ArrayBuffer ratchet_imports" where
  "demo =
     \<lparr>INFO_MESSAGE_KEYS = [73, 110, 102, 111, 77, 101, 115, 115, 97, 103, 101, 75, 101, 121, 115],
      Secret_sign = (\<lambda>k d. Inr (d @ k)),
      Secret_importHMAC = demo_import,
      Secret_importAES = demo_import,
      Secret_HKDF = demo_HKDF,
      Secret_encrypt = (\<lambda>k pt iv. Inr (iv @ k @ pt)),
      Secret_decrypt = demo_decrypt\<rparr>"

text \<open>
  The same provider with a signing operation that rejects every key of four bytes or more:
  seeded with a key of one byte, its chain advances three times and no further.
\<close>

definition demo_limited :: "ArrayBuffer ratchet_imports" where
  "demo_limited =
     demo\<lparr>Secret_sign := (\<lambda>k d. if length k < 4 then Inr (d @ k) else Inl (Error ''OperationError''))\<rparr>"

text \<open>
  A handle of the small provider holds the two coordinates as the text the web key carries
  them in; the conversions between bytes and text map each byte to the character of that
  code, and the digest is the identity.
\<close>

definition demo_text :: "ArrayBuffer \<Rightarrow> string" where
  "demo_text b = map (\<lambda>w. char_of (unat w)) b"

definition demo_bytes :: "string \<Rightarrow> ArrayBuffer" where
  "demo_bytes s = map (\<lambda>c. of_nat (of_char c)) s"

definition demo_keys :: "(string \<times> string) key_imports" where
  "demo_keys =
     \<lparr>Curve_NAMED_CURVE = ''P-256'',
      subtle_exportKey = (\<lambda>format k.
        Inr \<lparr>jwk_kty = ''EC'', jwk_crv = ''P-256'', jwk_x = fst (handle k), jwk_y = snd (handle k)\<rparr>),
      subtle_importKey = (\<lambda>format jwk params extractable usages.
        Inr \<lparr>algorithm_name = params_name params, type = type_public,
             handle = (jwk_x jwk, jwk_y jwk)\<rparr>),
      Secret_digest = (\<lambda>algorithm b. Inr b),
      Convert_FromBase64Url = demo_bytes,
      Convert_ToBase64Url = demo_text,
      Convert_ToBinary = demo_text,
      Convert_FromBinary = demo_bytes,
      Convert_ToHex = demo_text\<rparr>"

text \<open>
  The same provider keeping two rules of the Web Cryptography standard for the import of a
  web key without a private part: a key for \<^verbatim>\<open>ECDH\<close> takes no usages at all
  (\<^verbatim>\<open>deriveBits\<close> belongs to the private key), a key for \<^verbatim>\<open>ECDSA\<close> takes no usage
  but \<^verbatim>\<open>verify\<close>, and anything else is a \<^verbatim>\<open>SyntaxError\<close>; after that, each
  coordinate has to have the 32 bytes of the curve.
\<close>

definition std_importKey ::
  "string \<Rightarrow> JsonWebKey \<Rightarrow> EcKeyImportParams \<Rightarrow> bool \<Rightarrow> string list
     \<Rightarrow> error + (string \<times> string) CryptoKey" where
  "std_importKey format jwk params extractable usages =
     (if params_name params = ''ECDH'' \<and> usages \<noteq> [] then Inl (Error ''SyntaxError'')
      else if params_name params = ''ECDSA'' \<and> \<not> list_all (\<lambda>u. u = ''verify'') usages
        then Inl (Error ''SyntaxError'')
      else if length (demo_bytes (jwk_x jwk)) = 32 \<and> length (demo_bytes (jwk_y jwk)) = 32
        then Inr \<lparr>algorithm_name = params_name params, type = type_public,
                  handle = (jwk_x jwk, jwk_y jwk)\<rparr>
      else Inl (Error ''DataError''))"

definition std_keys :: "(string \<times> string) key_imports" where
  "std_keys = demo_keys\<lparr>subtle_importKey := std_importKey\<rparr>"

text \<open>The two coordinates of the base point of the curve P-256: a valid public key.\<close>

definition P256_G :: ArrayBuffer where
  "P256_G =
     [0x6B, 0x17, 0xD1, 0xF2, 0xE1, 0x2C, 0x42, 0x47, 0xF8, 0xBC, 0xE6, 0xE5, 0x63, 0xA4, 0x40, 0xF2,
      0x77, 0x03, 0x7D, 0x81, 0x2D, 0xEB, 0x33, 0xA0, 0xF4, 0xA1, 0x39, 0x45, 0xD8, 0x98, 0xC2, 0x96,
      0x4F, 0xE3, 0x42, 0xE2, 0xFE, 0x1A, 0x7F, 0x9B, 0x8E, 0xE7, 0xEB, 0x4A, 0x7C, 0x0F, 0x9E, 0x16,
      0x2B, 0xCE, 0x33, 0x57, 0x6B, 0x31, 0x5E, 0xCE, 0xCB, 0xB6, 0x40, 0x68, 0x37, 0xBF, 0x51, 0xF5]"

section \<open>Auxiliary facts\<close>

lemma await_Inl [simp]: "await (Inl e) k = Inl e"
  by (simp add: await_def)

lemma await_Inr [simp]: "await (Inr v) k = k v"
  by (simp add: await_def)

lemma await_eq_Inr: "await p k = Inr v \<longleftrightarrow> (\<exists>u. p = Inr u \<and> k u = Inr v)"
  by (cases p) simp_all

lemma click_Inl: "calculateKey P (rootKey this) = Inl e \<Longrightarrow> click P this = (Inl e, this)"
  by (simp add: click_def)

lemma click_Inr:
  "calculateKey P (rootKey this) = Inr res \<Longrightarrow>
   click P this = (Inr (res_cipher res), this\<lparr>rootKey := res_rootKey res, counter := Suc (counter this)\<rparr>)"
  by (simp add: click_def)

lemma getKey_cached: "c < counter this \<Longrightarrow> getKey P this c = (Inr (js_index (keys this) c), this)"
  by (simp add: getKey.simps)

lemma getKey_rejected:
  "counter this \<le> c \<Longrightarrow> calculateKey P (rootKey this) = Inl e \<Longrightarrow> getKey P this c = (Inl e, this)"
  by (simp add: getKey.simps click_Inl)

lemma getKey_advance:
  "counter this \<le> c \<Longrightarrow> calculateKey P (rootKey this) = Inr res \<Longrightarrow>
   getKey P this c =
     getKey P (this\<lparr>rootKey := res_rootKey res, counter := Suc (counter this),
                   keys := keys this @ [res_cipher res]\<rparr>) c"
  by (subst getKey.simps) (simp add: click_Inr)

lemma getKey_state:
  "snd (getKey P this c) =
     this\<lparr>rootKey := chain_root P (rootKey this) (Suc c - counter this),
          counter := counter this + length (chain_keys P (rootKey this) (Suc c - counter this)),
          keys := keys this @ chain_keys P (rootKey this) (Suc c - counter this)\<rparr>"
proof (induction P this c rule: getKey.induct)
  case (1 P this c)
  show ?case
  proof (cases "counter this \<le> c")
    case False
    then show ?thesis by (simp add: getKey_cached)
  next
    case True
    then have d: "Suc c - counter this = Suc (c - counter this)" by simp
    show ?thesis
    proof (cases "calculateKey P (rootKey this)")
      case (Inl e)
      with True show ?thesis by (simp add: getKey_rejected d)
    next
      case (Inr res)
      have "snd (getKey P (this\<lparr>rootKey := res_rootKey res, counter := Suc (counter this),
                   keys := keys this @ [res_cipher res]\<rparr>) c) = 
            (this\<lparr>rootKey := res_rootKey res, counter := Suc (counter this),
                   keys := keys this @ [res_cipher res]\<rparr>)\<lparr>rootKey := chain_root P (res_rootKey res) (c - counter this),
          counter := Suc (counter this) + length (chain_keys P (res_rootKey res) (c - counter this)),
          keys := (keys this @ [res_cipher res]) @ chain_keys P (res_rootKey res) (c - counter this)\<rparr>"
        using "1.IH"[OF True, of "Inr (res_cipher res)" "this\<lparr>rootKey := res_rootKey res, counter := Suc (counter this)\<rparr>" "res_cipher res"]
          True Inr by (simp add: click_Inr)
      with True Inr show ?thesis by (simp add: getKey_advance d)
    qed
  qed
qed

lemma getKey_result:
  "fst (getKey P this c) =
     (if counter this \<le> c then
        (case key_at P (rootKey this) (c - counter this) of
           Inl e \<Rightarrow> Inl e
         | Inr k \<Rightarrow> Inr (js_index (keys this @ chain_keys P (rootKey this) (Suc c - counter this)) c))
      else Inr (js_index (keys this) c))"
proof (induction P this c rule: getKey.induct)
  case (1 P this c)
  show ?case
  proof (cases "counter this \<le> c")
    case False
    then show ?thesis by (simp add: getKey_cached)
  next
    case True
    show ?thesis
    proof (cases "calculateKey P (rootKey this)")
      case (Inl e)
      with True show ?thesis by (cases "c - counter this") (simp_all add: getKey_rejected)
    next
      case (Inr res)
      let ?next = "this\<lparr>rootKey := res_rootKey res, counter := Suc (counter this),
                        keys := keys this @ [res_cipher res]\<rparr>"
      have step: "fst (getKey P this c) = fst (getKey P ?next c)"
        using True Inr by (simp add: getKey_advance)
      have IH: "fst (getKey P ?next c) =
         (if counter ?next \<le> c then
            (case key_at P (rootKey ?next) (c - counter ?next) of
               Inl e \<Rightarrow> Inl e
             | Inr k \<Rightarrow> Inr (js_index (keys ?next @ chain_keys P (rootKey ?next) (Suc c - counter ?next)) c))
          else Inr (js_index (keys ?next) c))"
        using "1.IH"[OF True, of "Inr (res_cipher res)"
            "this\<lparr>rootKey := res_rootKey res, counter := Suc (counter this)\<rparr>" "res_cipher res"]
          True Inr by (simp add: click_Inr cong: sum.case_cong if_cong)
      show ?thesis
      proof (cases "counter this = c")
        case True
        with Inr step IH show ?thesis by (simp cong: sum.case_cong)
      next
        case False
        with True have "c - counter this = Suc (c - Suc (counter this))"
          and "Suc c - counter this = Suc (Suc c - Suc (counter this))" by simp_all
        with Inr step IH False True show ?thesis by (simp cong: sum.case_cong)
      qed
    qed
  qed
qed

lemma length_chain_keys_le: "length (chain_keys P rk n) \<le> n"
  by (induction n arbitrary: rk) (auto split: sum.splits)

lemma chain_keys_complete:
  "key_at P rk n = Inr k \<Longrightarrow>
   length (chain_keys P rk (Suc n)) = Suc n \<and> chain_keys P rk (Suc n) ! n = k"
proof (induction n arbitrary: rk)
  case 0
  then show ?case by (auto simp: await_eq_Inr)
next
  case (Suc n)
  from Suc.prems obtain res where res: "calculateKey P rk = Inr res"
    and k: "key_at P (res_rootKey res) n = Inr k"
    by (auto simp: await_eq_Inr)
  from Suc.IH[OF k] res show ?case by simp
qed

lemma chain_root_complete:
  "key_at P rk n = Inr k \<Longrightarrow> root_at P rk (Suc n) = Inr (chain_root P rk (Suc n))"
proof (induction n arbitrary: rk)
  case 0
  then show ?case by (auto simp: await_eq_Inr)
next
  case (Suc n)
  from Suc.prems obtain res where res: "calculateKey P rk = Inr res"
    and k: "key_at P (res_rootKey res) n = Inr k"
    by (auto simp: await_eq_Inr)
  from Suc.IH[OF k] res show ?case by simp
qed

lemma root_at_add: "root_at P rk (n + d) = await (root_at P rk n) (\<lambda>r. root_at P r d)"
  by (induction n arbitrary: rk) (simp_all add: await_def split: sum.splits)

lemma key_at_add: "key_at P rk (n + d) = await (root_at P rk n) (\<lambda>r. key_at P r d)"
  by (induction n arbitrary: rk) (simp_all add: await_def split: sum.splits)

lemma chain_state_new: "chain_state P rk (new_ReceivingRatchet rk)"
  by (simp add: chain_state_def new_ReceivingRatchet_def)

lemma chain_state_key_at:
  "chain_state P rk this \<Longrightarrow> i < counter this \<Longrightarrow> key_at P rk i = Inr (keys this ! i)"
  by (simp add: chain_state_def list_all_iff)

lemma chain_state_getKey:
  assumes "chain_state P rk this"
  shows "chain_state P rk (snd (getKey P this c)) \<and> fst (getKey P this c) = key_result (key_at P rk c)"
  using assms
proof (induction P this c rule: getKey.induct)
  case (1 P this c)
  note inv = \<open>chain_state P rk this\<close>
  then have root: "root_at P rk (counter this) = Inr (rootKey this)"
    and len: "length (keys this) = counter this"
    by (simp_all add: chain_state_def)
  show ?case
  proof (cases "counter this \<le> c")
    case False
    with inv len chain_state_key_at[OF inv, of c] show ?thesis
      by (simp add: getKey_cached js_index_def key_result_def)
  next
    case True
    then have c: "c = counter this + (c - counter this)" by simp
    have at_c: "key_at P rk c = key_at P (rootKey this) (c - counter this)"
      by (subst c, subst key_at_add) (simp add: root)
    show ?thesis
    proof (cases "calculateKey P (rootKey this)")
      case (Inl e)
      then have "key_at P (rootKey this) (c - counter this) = Inl e"
        by (cases "c - counter this") simp_all
      with True Inl inv at_c show ?thesis
        by (simp add: getKey_rejected key_result_def)
    next
      case (Inr res)
      let ?next = "this\<lparr>rootKey := res_rootKey res, counter := Suc (counter this),
                        keys := keys this @ [res_cipher res]\<rparr>"
      have "root_at P rk (counter this + 1) = Inr (res_rootKey res)"
        by (subst root_at_add) (simp add: root Inr)
      moreover have "key_at P rk (counter this + 0) = Inr (res_cipher res)"
        by (subst key_at_add) (simp add: root Inr)
      ultimately have "chain_state P rk ?next"
        using inv len
        by (auto simp: chain_state_def list_all_iff nth_append less_Suc_eq)
      then have "chain_state P rk (snd (getKey P ?next c)) \<and>
                 fst (getKey P ?next c) = key_result (key_at P rk c)"
        using "1.IH"[OF True, of "Inr (res_cipher res)"
            "this\<lparr>rootKey := res_rootKey res, counter := Suc (counter this)\<rparr>" "res_cipher res"]
          True Inr by (simp add: click_Inr)
      with True Inr show ?thesis by (simp add: getKey_advance)
    qed
  qed
qed

lemma encrypt_unfold:
  "SendingRatchet_encrypt P this message =
     (case click P this of
        (Inl e, this') \<Rightarrow> (Inl e, this')
      | (Inr cipherKey, this') \<Rightarrow>
          (await (encrypt_keys P (Some cipherKey)) (\<lambda>(aesKey, hmacKey, iv).
           await (Secret_encrypt P aesKey message iv) (\<lambda>ct.
           Inr \<lparr>cipherText = ct, hmacKey = hmacKey\<rparr>)), this'))"
  by (simp add: SendingRatchet_encrypt_def encrypt_keys_def await_def
      split: prod.splits sum.splits option.splits)

lemma decrypt_unfold:
  "ReceivingRatchet_decrypt P this message c =
     (case getKey P this c of
        (Inl e, this') \<Rightarrow> (Inl e, this')
      | (Inr cipherKey, this') \<Rightarrow>
          (await (decrypt_keys P cipherKey) (\<lambda>(aesKey, hmacKey, iv).
           await (Secret_decrypt P aesKey message iv) (\<lambda>pt.
           Inr \<lparr>cipherText = pt, hmacKey = hmacKey\<rparr>)), this'))"
  by (simp add: ReceivingRatchet_decrypt_def decrypt_keys_def await_def
      split: prod.splits sum.splits option.splits)

lemma keys_same: "encrypt_keys P k = decrypt_keys P k"
  by (simp add: encrypt_keys_def decrypt_keys_def)

lemma snd_encrypt: "snd (SendingRatchet_encrypt P this message) = snd (click P this)"
  by (simp add: SendingRatchet_encrypt_def split: prod.splits sum.splits)

lemma snd_decrypt: "snd (ReceivingRatchet_decrypt P this message c) = snd (getKey P this c)"
  by (simp add: ReceivingRatchet_decrypt_def split: prod.splits sum.splits)

lemma encrypt_returns:
  assumes "SendingRatchet_encrypt P this message = (Inr cm, this')"
  obtains res aesKey iv where
    "calculateKey P (rootKey this) = Inr res"
    "this' = this\<lparr>rootKey := res_rootKey res, counter := Suc (counter this)\<rparr>"
    "encrypt_keys P (Some (res_cipher res)) = Inr (aesKey, hmacKey cm, iv)"
    "Secret_encrypt P aesKey message iv = Inr (cipherText cm)"
proof (cases "calculateKey P (rootKey this)")
  case (Inl e)
  with assms show ?thesis by (simp add: encrypt_unfold click_Inl)
next
  case (Inr res)
  with assms have "this' = this\<lparr>rootKey := res_rootKey res, counter := Suc (counter this)\<rparr>"
    and "await (encrypt_keys P (Some (res_cipher res))) (\<lambda>(aesKey, hmacKey, iv).
           await (Secret_encrypt P aesKey message iv) (\<lambda>ct.
           Inr \<lparr>cipherText = ct, hmacKey = hmacKey\<rparr>)) = Inr cm"
    by (simp_all add: encrypt_unfold click_Inr)
  then show ?thesis using Inr that
    by (auto simp: await_eq_Inr)
qed

lemma perform_chain_state: "chain_state P rk this \<Longrightarrow> chain_state P rk (perform P this call)"
  by (cases call) (simp_all add: snd_decrypt chain_state_getKey)

lemma foldl_perform_chain_state:
  "chain_state P rk this \<Longrightarrow> chain_state P rk (foldl (perform P) this history)"
  by (induction history arbitrary: this) (simp_all add: perform_chain_state)

lemma receiver_after_chain_state: "chain_state P rk (receiver_after P rk history)"
  by (simp add: receiver_after_def foldl_perform_chain_state chain_state_new)

lemma encrypt_all_returned:
  assumes "encrypt_all P this ms = (outs, this')"
    and "list_all (\<lambda>r. \<not> isl r) outs"
    and "root_at P rk (counter this) = Inr (rootKey this)"
  shows "counter this' = counter this + length ms \<and> root_at P rk (counter this') = Inr (rootKey this')"
  using assms
proof (induction ms arbitrary: this outs)
  case Nil
  then show ?case by simp
next
  case (Cons m ms)
  obtain r s1 where e: "SendingRatchet_encrypt P this m = (r, s1)"
    by (cases "SendingRatchet_encrypt P this m")
  obtain rs s2 where a: "encrypt_all P s1 ms = (rs, s2)"
    by (cases "encrypt_all P s1 ms")
  from Cons.prems(1) e a have outs: "outs = r # rs" and s2: "s2 = this'" by simp_all
  with Cons.prems(2) obtain cm where r: "r = Inr cm" and rs: "list_all (\<lambda>r. \<not> isl r) rs"
    by (cases r) simp_all
  from e r obtain res where res: "calculateKey P (rootKey this) = Inr res"
    and s1: "s1 = this\<lparr>rootKey := res_rootKey res, counter := Suc (counter this)\<rparr>"
    by (auto elim: encrypt_returns)
  have "root_at P rk (counter this + 1) = Inr (res_rootKey res)"
    by (subst root_at_add) (simp add: Cons.prems(3) res)
  with s1 have "root_at P rk (counter s1) = Inr (rootKey s1)" by simp
  from Cons.IH[OF a[unfolded s2] rs this]
  have A: "counter this' = counter s1 + length ms"
    and B: "root_at P rk (counter this') = Inr (rootKey this')" by blast+
  from A s1 have "counter this' = counter this + length (m # ms)" by simp
  with B show ?case by blast
qed

lemma sender_receiver:
  assumes inverse: "\<forall>k pt iv ct. Secret_encrypt P k pt iv = Inr ct \<longrightarrow> Secret_decrypt P k ct iv = Inr pt"
    and position: "root_at P rk (counter sender) = Inr (rootKey sender)"
    and sent: "SendingRatchet_encrypt P sender m = (Inr cm, sender')"
    and receiver: "chain_state P rk receiver"
  shows "fst (ReceivingRatchet_decrypt P receiver (cipherText cm) (counter sender)) =
           Inr \<lparr>cipherText = m, hmacKey = hmacKey cm\<rparr>"
proof -
  from sent obtain res aesKey iv where res: "calculateKey P (rootKey sender) = Inr res"
    and ks: "encrypt_keys P (Some (res_cipher res)) = Inr (aesKey, hmacKey cm, iv)"
    and ct: "Secret_encrypt P aesKey m iv = Inr (cipherText cm)"
    by (auto elim: encrypt_returns)
  have "key_at P rk (counter sender + 0) = Inr (res_cipher res)"
    by (subst key_at_add) (simp add: position res)
  then have "fst (getKey P receiver (counter sender)) = Inr (Some (res_cipher res))"
    using chain_state_getKey[OF receiver, of "counter sender"] by (simp add: key_result_def)
  moreover from inverse ct have "Secret_decrypt P aesKey (cipherText cm) iv = Inr m" by blast
  ultimately show ?thesis
    using ks by (cases "getKey P receiver (counter sender)")
      (simp add: decrypt_unfold keys_same[symmetric])
qed

lemma chain_keys_nth:
  "j < length (chain_keys P rk n) \<Longrightarrow> key_at P rk j = Inr (chain_keys P rk n ! j)"
proof (induction n arbitrary: rk j)
  case 0
  then show ?case by simp
next
  case (Suc n)
  then obtain res where res: "calculateKey P rk = Inr res"
    by (cases "calculateKey P rk") simp_all
  show ?case
  proof (cases j)
    case 0
    with res show ?thesis by simp
  next
    case (Suc i)
    with Suc.prems res have "i < length (chain_keys P (res_rootKey res) n)" by simp
    from Suc.IH[OF this] res Suc show ?thesis by simp
  qed
qed

lemma chain_keys_rejected:
  "key_at P rk n = Inl e \<Longrightarrow> length (chain_keys P rk (Suc n)) \<le> n"
proof (induction n arbitrary: rk)
  case 0
  then show ?case by (cases "calculateKey P rk") simp_all
next
  case (Suc n)
  show ?case
  proof (cases "calculateKey P rk")
    case (Inl e')
    then show ?thesis by simp
  next
    case (Inr res)
    with Suc.prems have "key_at P (res_rootKey res) n = Inl e" by simp
    from Suc.IH[OF this] Inr show ?thesis by simp
  qed
qed

lemma getKey_all_results:
  assumes "chain_state P rk this" and "i < length cs"
  shows "fst (getKey_all P this cs) ! i = key_result (key_at P rk (cs ! i))"
  using assms
proof (induction cs arbitrary: this i)
  case Nil
  then show ?case by simp
next
  case (Cons c cs)
  obtain r s1 where g: "getKey P this c = (r, s1)" by (cases "getKey P this c")
  obtain rs s2 where a: "getKey_all P s1 cs = (rs, s2)" by (cases "getKey_all P s1 cs")
  from chain_state_getKey[OF Cons.prems(1), of c] g
  have s1: "chain_state P rk s1" and r: "r = key_result (key_at P rk c)" by simp_all
  show ?case
  proof (cases i)
    case 0
    with g a r show ?thesis by simp
  next
    case (Suc i')
    with Cons.prems(2) have "i' < length cs" by simp
    from Cons.IH[OF s1 this] g a Suc show ?thesis by simp
  qed
qed

lemma counter_click:
  "counter (snd (click P this)) = (if isl (fst (click P this)) then counter this else counter this + 1)"
  by (simp add: click_def split: sum.splits)

lemma toUpperCase_kind:
  "toUpperCase (ECKeyType_name t) = ''ECDH'' \<or> toUpperCase (ECKeyType_name t) = ''ECDSA''"
  by (cases t) (simp_all add: toUpperCase_def upper_char_def)

lemma utils_isEqual_iff: "utils_isEqual a b \<longleftrightarrow> a = b"
  by (induction a b rule: utils_isEqual.induct) auto

lemma isEqual_Instance: "ECPublicKey_isEqual a (Instance b) \<longleftrightarrow> serialized a = serialized b"
  by (simp add: ECPublicKey_isEqual_def utils_isEqual_iff)

lemma demo_bytes_text: "demo_bytes (demo_text b) = b"
proof -
  have "unat w mod 256 = unat w" for w :: byte
    using unsigned_less[of w, where 'a = nat] by simp
  then show ?thesis by (simp add: demo_bytes_def demo_text_def comp_def)
qed

lemma demo_bytes_append: "demo_bytes (demo_text a @ demo_text b) = a @ b"
  using demo_bytes_text[of "a @ b"] by (simp add: demo_text_def)

lemma demo_inverse:
  "\<forall>k pt iv ct. Secret_encrypt demo k pt iv = Inr ct \<longrightarrow> Secret_decrypt demo k ct iv = Inr pt"
  by (auto simp: demo_def demo_decrypt_def)

lemma std_keys_importKey_ECDSA:
  assumes "length bytes = 64"
  shows "ECPublicKey_importKey std_keys bytes ECDSA =
     Inr \<lparr>id_hex = demo_text bytes,
          key = \<lparr>algorithm_name = ''ECDSA'', type = type_public,
                 handle = (demo_text (take 32 bytes), demo_text (drop 32 bytes))\<rparr>,
          serialized = bytes\<rparr>"
  using assms toUpperCase_kind[of ECDSA]
  by (auto simp: ECPublicKey_importKey_def ECPublicKey_create_def ECPublicKey_thumbprint_def
      ECPublicKey_serialize_def std_keys_def std_importKey_def demo_keys_def Let_def
      demo_bytes_append demo_bytes_text)

section \<open>The claims\<close>

text \<open>
  C1. Sender and receiver agree. A sending chain and a receiving chain are seeded with the
  same root key \<open>rk\<close>; the sending chain has encrypted the \<open>k\<close> messages \<open>ms\<close>, each
  call returning, and its next \<^verbatim>\<open>encrypt(m)\<close> returns the message \<open>cm\<close>. Then
  \<^verbatim>\<open>decrypt(cm.cipherText, k)\<close> on the receiving chain, whatever calls it has taken
  before, returns a message whose \<^verbatim>\<open>cipherText\<close> is \<open>m\<close>, with the same HMAC key,
  provided the provider's \<^verbatim>\<open>decrypt\<close> inverts its \<^verbatim>\<open>encrypt\<close> for the same key and
  initialisation vector.
\<close>

theorem sender_receiver_agreement:
  assumes "\<forall>k pt iv ct. Secret_encrypt P k pt iv = Inr ct \<longrightarrow> Secret_decrypt P k ct iv = Inr pt"
    and "encrypt_all P (new_SendingRatchet rk) ms = (outs, sender)"
    and "list_all (\<lambda>r. \<not> isl r) outs"
    and "SendingRatchet_encrypt P sender m = (Inr cm, sender')"
  shows "fst (ReceivingRatchet_decrypt P (receiver_after P rk history) (cipherText cm) (length ms)) =
           Inr \<lparr>cipherText = m, hmacKey = hmacKey cm\<rparr>"
proof -
  have "root_at P rk (counter (new_SendingRatchet rk)) = Inr (rootKey (new_SendingRatchet rk))"
    by (simp add: new_SendingRatchet_def)
  from encrypt_all_returned[OF assms(2,3) this]
  have c: "counter sender = counter (new_SendingRatchet rk) + length ms"
    and r: "root_at P rk (counter sender) = Inr (rootKey sender)" by blast+
  from c have c': "counter sender = length ms" by (simp add: new_SendingRatchet_def)
  from sender_receiver[OF assms(1) r assms(4) receiver_after_chain_state, of history]
  show ?thesis unfolding c' .
qed

theorem sender_receiver_agreement_witness:
  "SendingRatchet_encrypt demo (snd (encrypt_all demo (new_SendingRatchet [7]) [[1]])) [9, 9] =
     (Inr \<lparr>cipherText =
             [3, 73, 110, 102, 111, 77, 101, 115, 115, 97, 103, 101, 75, 101, 121, 115,
              1, 73, 110, 102, 111, 77, 101, 115, 115, 97, 103, 101, 75, 101, 121, 115, 1, 2, 7,
              9, 9],
           hmacKey = [2, 73, 110, 102, 111, 77, 101, 115, 115, 97, 103, 101, 75, 101, 121, 115, 1, 2, 7]\<rparr>,
      \<lparr>counter = 2, rootKey = [2, 2, 7]\<rparr>) \<and>
   fst (ReceivingRatchet_decrypt demo (receiver_after demo [7] [GetKey 2])
          [3, 73, 110, 102, 111, 77, 101, 115, 115, 97, 103, 101, 75, 101, 121, 115,
           1, 73, 110, 102, 111, 77, 101, 115, 115, 97, 103, 101, 75, 101, 121, 115, 1, 2, 7,
           9, 9] 1) =
     Inr \<lparr>cipherText = [9, 9],
          hmacKey = [2, 73, 110, 102, 111, 77, 101, 115, 115, 97, 103, 101, 75, 101, 121, 115, 1, 2, 7]\<rparr>"
proof -
  have prior: "encrypt_all demo (new_SendingRatchet [7]) [[1]] =
      ([Inr \<lparr>cipherText =
               [3, 73, 110, 102, 111, 77, 101, 115, 115, 97, 103, 101, 75, 101, 121, 115,
                1, 73, 110, 102, 111, 77, 101, 115, 115, 97, 103, 101, 75, 101, 121, 115, 1, 7, 1],
             hmacKey = [2, 73, 110, 102, 111, 77, 101, 115, 115, 97, 103, 101, 75, 101, 121, 115, 1, 7]\<rparr>],
       \<lparr>counter = 1, rootKey = [2, 7]\<rparr>)"
    by code_simp
  have returned: "list_all (\<lambda>r. \<not> isl r)
      [Inr \<lparr>cipherText =
               [3, 73, 110, 102, 111, 77, 101, 115, 115, 97, 103, 101, 75, 101, 121, 115,
                1, 73, 110, 102, 111, 77, 101, 115, 115, 97, 103, 101, 75, 101, 121, 115, 1, 7, 1],
             hmacKey = [2, 73, 110, 102, 111, 77, 101, 115, 115, 97, 103, 101, 75, 101, 121, 115, 1, 7 :: byte]\<rparr>]"
    by simp
  have sent: "SendingRatchet_encrypt demo \<lparr>counter = 1, rootKey = [2, 7]\<rparr> [9, 9] =
     (Inr \<lparr>cipherText =
             [3, 73, 110, 102, 111, 77, 101, 115, 115, 97, 103, 101, 75, 101, 121, 115,
              1, 73, 110, 102, 111, 77, 101, 115, 115, 97, 103, 101, 75, 101, 121, 115, 1, 2, 7,
              9, 9],
           hmacKey = [2, 73, 110, 102, 111, 77, 101, 115, 115, 97, 103, 101, 75, 101, 121, 115, 1, 2, 7]\<rparr>,
      \<lparr>counter = 2, rootKey = [2, 2, 7]\<rparr>)"
    by code_simp
  from sender_receiver_agreement[OF demo_inverse prior returned sent, of "[GetKey 2]"] prior sent
  show ?thesis by simp
qed

text \<open>
  C2. One call to \<^verbatim>\<open>click\<close> on a state with root key \<open>r\<close> and counter \<open>n\<close> returns
  \<^verbatim>\<open>sign(r, [0x01])\<close> as the cipher key, replaces the root key with
  \<^verbatim>\<open>importHMAC(sign(r, [0x02]))\<close> and sets the counter to \<open>n + 1\<close>, whenever the
  provider returns these three values; every other field of the state (such as the cache of
  a receiving chain) is as before.
\<close>

theorem click_effect:
  assumes "Secret_sign P (rootKey this) [1] = Inr cipherKey"
    and "Secret_sign P (rootKey this) [2] = Inr nextRootKeyBytes"
    and "Secret_importHMAC P (Some nextRootKeyBytes) = Inr rk'"
  shows "click P this = (Inr cipherKey, this\<lparr>rootKey := rk', counter := counter this + 1\<rparr>)"
  using assms
  by (simp add: click_def calculateKey_def CIPHER_KEY_KDF_INPUT_def ROOT_KEY_KDF_INPUT_def)

theorem click_effect_witness:
  "click demo \<lparr>counter = 4, rootKey = [7], keys = [[5], [6]]\<rparr> =
     (Inr [1, 7], \<lparr>counter = 5, rootKey = [2, 7], keys = [[5], [6]]\<rparr>)"
  using click_effect[of demo "\<lparr>counter = 4, rootKey = [7], keys = [[5], [6]]\<rparr>" "[1, 7]" "[2, 7]" "[2, 7]"]
  by (simp add: demo_def demo_import_def)

text \<open>
  C3. On a receiving chain whose counter is \<open>n\<close> and whose cache holds \<open>n\<close> keys,
  \<^verbatim>\<open>getKey(c)\<close> advances the engine once per iteration while the counter is at most
  \<open>c\<close>, appends each cipher key produced to the cache, and returns the cache entry at
  index \<open>c\<close>. When \<open>c < n\<close> nothing advances and the entry is the cached one. When
  \<open>n \<le> c\<close> and the provider lets every advance up to step \<open>c\<close> succeed, the final counter
  is \<open>c + 1\<close>, the cache has length \<open>c + 1\<close>, keeps its first \<open>n\<close> entries, holds
  at index \<open>n + j\<close> the cipher key of the \<open>j\<close>-th advance from the root key the call
  started with, and the key returned is the cipher key of step \<open>c\<close>. When instead an
  advance is rejected, the call throws that rejection, past the advances made before it.
\<close>

theorem getKey_advances:
  assumes "length (keys this) = counter this"
  shows "(c < counter this \<longrightarrow> getKey P this c = (Inr (Some (keys this ! c)), this)) \<and>
         (counter this \<le> c \<and> key_at P (rootKey this) (c - counter this) = Inr k \<longrightarrow>
            fst (getKey P this c) = Inr (Some k) \<and>
            counter (snd (getKey P this c)) = c + 1 \<and>
            length (keys (snd (getKey P this c))) = c + 1 \<and>
            keys (snd (getKey P this c)) ! c = k \<and>
            take (counter this) (keys (snd (getKey P this c))) = keys this \<and>
            list_all (\<lambda>j. key_at P (rootKey this) j =
                            Inr (keys (snd (getKey P this c)) ! (counter this + j)))
              [0..<Suc c - counter this] \<and>
            root_at P (rootKey this) (Suc c - counter this) = Inr (rootKey (snd (getKey P this c)))) \<and>
         (counter this \<le> c \<and> key_at P (rootKey this) (c - counter this) = Inl e \<longrightarrow>
            fst (getKey P this c) = Inl e \<and>
            counter this \<le> counter (snd (getKey P this c)) \<and>
            counter (snd (getKey P this c)) \<le> c \<and>
            length (keys (snd (getKey P this c))) = counter (snd (getKey P this c)))"
proof (intro conjI impI)
  assume "c < counter this"
  with assms show "getKey P this c = (Inr (Some (keys this ! c)), this)"
    by (simp add: getKey_cached js_index_def)
next
  assume "counter this \<le> c \<and> key_at P (rootKey this) (c - counter this) = Inr k"
  then have le: "counter this \<le> c" and k: "key_at P (rootKey this) (c - counter this) = Inr k"
    by simp_all
  let ?d = "c - counter this"
  let ?ks = "chain_keys P (rootKey this) (Suc ?d)"
  from le have d: "Suc c - counter this = Suc ?d" by simp
  from chain_keys_complete[OF k] have len: "length ?ks = Suc ?d" and last: "?ks ! ?d = k"
    by simp_all
  have st: "snd (getKey P this c) =
      this\<lparr>rootKey := chain_root P (rootKey this) (Suc ?d),
           counter := counter this + length ?ks, keys := keys this @ ?ks\<rparr>"
    by (simp add: getKey_state d)
  show "counter (snd (getKey P this c)) = c + 1" using le len by (simp add: st)
  show "length (keys (snd (getKey P this c))) = c + 1" using le len assms by (simp add: st)
  show "keys (snd (getKey P this c)) ! c = k" using le len last assms by (simp add: st nth_append)
  show "take (counter this) (keys (snd (getKey P this c))) = keys this" using assms by (simp add: st)
  show "fst (getKey P this c) = Inr (Some k)"
    using le k len last assms by (simp add: getKey_result d js_index_def nth_append)
  show "root_at P (rootKey this) (Suc c - counter this) = Inr (rootKey (snd (getKey P this c)))"
    using chain_root_complete[OF k] by (simp add: st d del: root_at.simps chain_root.simps)
  show "list_all (\<lambda>j. key_at P (rootKey this) j =
                            Inr (keys (snd (getKey P this c)) ! (counter this + j)))
              [0..<Suc c - counter this]"
    using len assms chain_keys_nth[of _ P "rootKey this" "Suc ?d"]
    by (simp add: st d list_all_iff nth_append del: chain_keys.simps key_at.simps)
next
  assume "counter this \<le> c \<and> key_at P (rootKey this) (c - counter this) = Inl e"
  then have le: "counter this \<le> c" and e: "key_at P (rootKey this) (c - counter this) = Inl e"
    by simp_all
  let ?d = "c - counter this"
  let ?ks = "chain_keys P (rootKey this) (Suc ?d)"
  from le have d: "Suc c - counter this = Suc ?d" by simp
  have st: "snd (getKey P this c) =
      this\<lparr>rootKey := chain_root P (rootKey this) (Suc ?d),
           counter := counter this + length ?ks, keys := keys this @ ?ks\<rparr>"
    by (simp add: getKey_state d)
  show "fst (getKey P this c) = Inl e" using le e by (simp add: getKey_result)
  show "counter this \<le> counter (snd (getKey P this c))" by (simp add: st)
  show "counter (snd (getKey P this c)) \<le> c" using chain_keys_rejected[OF e] le by (simp add: st del: chain_keys.simps)
  show "length (keys (snd (getKey P this c))) = counter (snd (getKey P this c))" using assms by (simp add: st)
qed

theorem getKey_advances_witness:
  "getKey demo \<lparr>counter = 1, rootKey = [2, 7], keys = [[1, 7]]\<rparr> 0 =
     (Inr (Some [1, 7]), \<lparr>counter = 1, rootKey = [2, 7], keys = [[1, 7]]\<rparr>) \<and>
   fst (getKey demo \<lparr>counter = 1, rootKey = [2, 7], keys = [[1, 7]]\<rparr> 3) = Inr (Some [1, 2, 2, 2, 7]) \<and>
   counter (snd (getKey demo \<lparr>counter = 1, rootKey = [2, 7], keys = [[1, 7]]\<rparr> 3)) = 4 \<and>
   length (keys (snd (getKey demo \<lparr>counter = 1, rootKey = [2, 7], keys = [[1, 7]]\<rparr> 3))) = 4 \<and>
   fst (getKey demo_limited \<lparr>counter = 1, rootKey = [2, 7], keys = [[1, 7]]\<rparr> 5) =
     Inl (Error ''OperationError'') \<and>
   counter (snd (getKey demo_limited \<lparr>counter = 1, rootKey = [2, 7], keys = [[1, 7]]\<rparr> 5)) \<le> 5"
proof -
  let ?s = "\<lparr>counter = 1, rootKey = [2, 7 :: byte], keys = [[1, 7]]\<rparr>"
  have inv: "length (keys ?s) = counter ?s" by simp
  have k: "key_at demo (rootKey ?s) (3 - counter ?s) = Inr [1, 2, 2, 2, 7]" by code_simp
  have e: "key_at demo_limited (rootKey ?s) (5 - counter ?s) = Inl (Error ''OperationError'')"
    by code_simp
  from getKey_advances[OF inv, of 0 demo] getKey_advances[OF inv, of 3 demo "[1, 2, 2, 2, 7]"]
    getKey_advances[OF inv, of 5 demo_limited _ "Error ''OperationError''"] k e
  show ?thesis by simp
qed

text \<open>
  C4. The order of the calls does not matter. Two receiving chains seeded with the same root
  key are asked for the counters \<open>cs\<close> and \<open>cs'\<close>, one a permutation of the other: what
  the call for a given counter returns is the same in both orders. It is in fact the cipher
  key of that step of the seed's chain, whatever calls came before, and so is the cache entry
  at every index below the counter.
\<close>

theorem getKey_order_independent:
  assumes "mset cs = mset cs'" and "i < length cs" and "j < length cs'" and "cs ! i = cs' ! j"
  shows "fst (getKey_all P (new_ReceivingRatchet rk) cs) ! i =
           fst (getKey_all P (new_ReceivingRatchet rk) cs') ! j \<and>
         fst (getKey_all P (new_ReceivingRatchet rk) cs) ! i = key_result (key_at P rk (cs ! i)) \<and>
         fst (getKey P (receiver_after P rk history) c) = key_result (key_at P rk c) \<and>
         (c < counter (receiver_after P rk history) \<longrightarrow>
            key_at P rk c = Inr (keys (receiver_after P rk history) ! c))"
  using assms(2-4) getKey_all_results[OF chain_state_new, of _ _ P rk]
    chain_state_getKey[OF receiver_after_chain_state, of P rk history c]
    chain_state_key_at[OF receiver_after_chain_state, of c P rk history]
  by simp

theorem getKey_order_independent_witness:
  "fst (getKey_all demo (new_ReceivingRatchet [7]) [5, 2]) ! 1 = Inr (Some [1, 2, 2, 7]) \<and>
   fst (getKey_all demo (new_ReceivingRatchet [7]) [2, 5]) ! 0 = Inr (Some [1, 2, 2, 7]) \<and>
   keys (receiver_after demo [7] [GetKey 5]) ! 2 = [1, 2, 2, 7]"
proof -
  have k: "key_at demo [7] 2 = Inr [1, 2, 2, 7]" by code_simp
  have c: "2 < counter (receiver_after demo [7] [GetKey 5])" by code_simp
  have m: "mset [5, 2 :: nat] = mset [2, 5]" by simp
  from getKey_order_independent[OF m, of 1 0 demo "[7]" "[GetKey 5]" 2]
    getKey_order_independent[OF m[symmetric], of 0 1 demo "[7]" "[GetKey 5]" 2] k c
  show ?thesis by (simp add: key_result_def)
qed

text \<open>
  C5. The counter of a chain starts at 0 and only ever moves forward, one at a time. A new
  sending or receiving chain has counter 0. \<^verbatim>\<open>click\<close> adds exactly 1 when the advance
  succeeds and leaves the counter alone when it is rejected. \<^verbatim>\<open>encrypt\<close> moves the
  counter as its one \<^verbatim>\<open>click\<close> does, by 1 whenever it returns. \<^verbatim>\<open>getKey(c)\<close> and
  \<^verbatim>\<open>decrypt\<close> never lower the counter, never take it past \<open>c + 1\<close> unless it was
  there already, and raise it by exactly the number of keys they append to the cache, one
  per successful advance. (The counter is a JavaScript number; the model takes it as a
  natural number, below the range where adding 1 to a double loses precision.)
\<close>

theorem counter_forward_only:
  "counter (new_SendingRatchet rk) = 0 \<and>
   counter (new_ReceivingRatchet rk) = 0 \<and>
   counter (snd (click P this)) =
     (if isl (fst (click P this)) then counter this else counter this + 1) \<and>
   counter (snd (SendingRatchet_encrypt P sender m)) = counter (snd (click P sender)) \<and>
   counter sender \<le> counter (snd (SendingRatchet_encrypt P sender m)) \<and>
   counter (snd (SendingRatchet_encrypt P sender m)) \<le> counter sender + 1 \<and>
   (\<not> isl (fst (SendingRatchet_encrypt P sender m)) \<longrightarrow>
      counter (snd (SendingRatchet_encrypt P sender m)) = counter sender + 1) \<and>
   counter receiver \<le> counter (snd (getKey P receiver c)) \<and>
   counter (snd (getKey P receiver c)) \<le> max (counter receiver) (c + 1) \<and>
   counter (snd (getKey P receiver c)) - counter receiver =
     length (keys (snd (getKey P receiver c))) - length (keys receiver) \<and>
   counter (snd (ReceivingRatchet_decrypt P receiver message c)) = counter (snd (getKey P receiver c))"
proof -
  have "counter (snd (getKey P receiver c)) \<le> max (counter receiver) (c + 1)"
    using length_chain_keys_le[of P "rootKey receiver" "Suc c - counter receiver"]
    by (simp add: getKey_state del: chain_keys.simps)
  moreover have "\<not> isl (fst (SendingRatchet_encrypt P sender m)) \<Longrightarrow>
      counter (snd (SendingRatchet_encrypt P sender m)) = counter sender + 1"
    by (simp add: SendingRatchet_encrypt_def click_def split: sum.splits)
  ultimately show ?thesis
    by (simp add: counter_click snd_encrypt snd_decrypt getKey_state new_SendingRatchet_def
        new_ReceivingRatchet_def)
qed

theorem counter_forward_only_witness:
  "counter (snd (SendingRatchet_encrypt demo_limited \<lparr>counter = 2, rootKey = [2, 2, 7]\<rparr> [9])) = 3 \<and>
   counter (snd (SendingRatchet_encrypt demo_limited \<lparr>counter = 3, rootKey = [2, 2, 2, 7]\<rparr> [9])) = 3 \<and>
   counter (snd (click demo_limited \<lparr>counter = 3, rootKey = [2, 2, 2, 7]\<rparr>)) = 3"
proof -
  have a: "\<not> isl (fst (SendingRatchet_encrypt demo_limited \<lparr>counter = 2, rootKey = [2, 2, 7]\<rparr> [9]))"
    by code_simp
  have b: "isl (fst (click demo_limited \<lparr>counter = 3, rootKey = [2, 2, 2, 7 :: byte]\<rparr>))"
    by code_simp
  from counter_forward_only[of "[7 :: byte]" demo_limited "\<lparr>counter = 3, rootKey = [2, 2, 2, 7]\<rparr>"
      "\<lparr>counter = 2, rootKey = [2, 2, 7]\<rparr>" "[9]" "new_ReceivingRatchet [7]" 0 "[]"]
    counter_forward_only[of "[7 :: byte]" demo_limited "\<lparr>counter = 3, rootKey = [2, 2, 2, 7]\<rparr>"
      "\<lparr>counter = 3, rootKey = [2, 2, 2, 7]\<rparr>" "[9]" "new_ReceivingRatchet [7]" 0 "[]"] a b
  show ?thesis by simp
qed

text \<open>
  C6. The receiving chain expands a cipher key into the AES key, the HMAC key and the
  initialisation vector by the same function as the sending chain. \<open>encrypt_keys\<close> and
  \<open>decrypt_keys\<close> are the expansions as \<^verbatim>\<open>encrypt\<close> and \<^verbatim>\<open>decrypt\<close> write them
  (the second and third conjuncts say so); they are equal on every input, and on a cipher
  key that the provider's key derivation turns into the three outputs \<open>out0\<close>, \<open>out1\<close>,
  \<open>out2\<close> (asked for 3 outputs, no salt, the message-keys label) both give the AES key
  imported from \<open>out0\<close>, the HMAC key imported from \<open>out1\<close> and the first 16 bytes of
  \<open>out2\<close>.
\<close>

theorem key_expansion_same:
  "encrypt_keys P k = decrypt_keys P k \<and>
   SendingRatchet_encrypt P sender m =
     (case click P sender of
        (Inl e, this') \<Rightarrow> (Inl e, this')
      | (Inr cipherKey, this') \<Rightarrow>
          (await (encrypt_keys P (Some cipherKey)) (\<lambda>(aesKey, hmacKey, iv).
           await (Secret_encrypt P aesKey m iv) (\<lambda>ct.
           Inr \<lparr>cipherText = ct, hmacKey = hmacKey\<rparr>)), this')) \<and>
   ReceivingRatchet_decrypt P receiver message c =
     (case getKey P receiver c of
        (Inl e, this') \<Rightarrow> (Inl e, this')
      | (Inr cipherKey, this') \<Rightarrow>
          (await (decrypt_keys P cipherKey) (\<lambda>(aesKey, hmacKey, iv).
           await (Secret_decrypt P aesKey message iv) (\<lambda>pt.
           Inr \<lparr>cipherText = pt, hmacKey = hmacKey\<rparr>)), this')) \<and>
   (Secret_HKDF P (Some ck) 3 None (INFO_MESSAGE_KEYS P) = Inr [out0, out1, out2] \<and>
    Secret_importAES P (Some out0) = Inr aes \<and> Secret_importHMAC P (Some out1) = Inr hmac \<longrightarrow>
      encrypt_keys P (Some ck) = Inr (aes, hmac, take 16 out2) \<and>
      decrypt_keys P (Some ck) = Inr (aes, hmac, take 16 out2))"
  by (simp add: keys_same encrypt_unfold[symmetric] decrypt_unfold[symmetric])
    (simp add: decrypt_keys_def js_index_def)

theorem key_expansion_same_witness:
  "encrypt_keys demo (Some [1, 7]) =
     Inr ([1, 73, 110, 102, 111, 77, 101, 115, 115, 97, 103, 101, 75, 101, 121, 115, 1, 7],
          [2, 73, 110, 102, 111, 77, 101, 115, 115, 97, 103, 101, 75, 101, 121, 115, 1, 7],
          [3, 73, 110, 102, 111, 77, 101, 115, 115, 97, 103, 101, 75, 101, 121, 115]) \<and>
   decrypt_keys demo (Some [1, 7]) =
     Inr ([1, 73, 110, 102, 111, 77, 101, 115, 115, 97, 103, 101, 75, 101, 121, 115, 1, 7],
          [2, 73, 110, 102, 111, 77, 101, 115, 115, 97, 103, 101, 75, 101, 121, 115, 1, 7],
          [3, 73, 110, 102, 111, 77, 101, 115, 115, 97, 103, 101, 75, 101, 121, 115])"
proof -
  have h: "Secret_HKDF demo (Some [1, 7]) 3 None (INFO_MESSAGE_KEYS demo) =
      Inr [[1, 73, 110, 102, 111, 77, 101, 115, 115, 97, 103, 101, 75, 101, 121, 115, 1, 7],
           [2, 73, 110, 102, 111, 77, 101, 115, 115, 97, 103, 101, 75, 101, 121, 115, 1, 7],
           [3, 73, 110, 102, 111, 77, 101, 115, 115, 97, 103, 101, 75, 101, 121, 115, 1, 7]]"
    by code_simp
  have a: "Secret_importAES demo
      (Some [1, 73, 110, 102, 111, 77, 101, 115, 115, 97, 103, 101, 75, 101, 121, 115, 1, 7]) =
      Inr [1, 73, 110, 102, 111, 77, 101, 115, 115, 97, 103, 101, 75, 101, 121, 115, 1, 7]"
    by (simp add: demo_def demo_import_def)
  have b: "Secret_importHMAC demo
      (Some [2, 73, 110, 102, 111, 77, 101, 115, 115, 97, 103, 101, 75, 101, 121, 115, 1, 7]) =
      Inr [2, 73, 110, 102, 111, 77, 101, 115, 115, 97, 103, 101, 75, 101, 121, 115, 1, 7]"
    by (simp add: demo_def demo_import_def)
  from key_expansion_same[of demo _ _ _ _ _ _ "[1, 7]"
      "[1, 73, 110, 102, 111, 77, 101, 115, 115, 97, 103, 101, 75, 101, 121, 115, 1, 7]"
      "[2, 73, 110, 102, 111, 77, 101, 115, 115, 97, 103, 101, 75, 101, 121, 115, 1, 7]"
      "[3, 73, 110, 102, 111, 77, 101, 115, 115, 97, 103, 101, 75, 101, 121, 115, 1, 7]"
      "[1, 73, 110, 102, 111, 77, 101, 115, 115, 97, 103, 101, 75, 101, 121, 115, 1, 7]"
      "[2, 73, 110, 102, 111, 77, 101, 115, 115, 97, 103, 101, 75, 101, 121, 115, 1, 7]"] h a b
  show ?thesis by simp
qed

text \<open>
  C7. \<^verbatim>\<open>create(h)\<close> rejects a handle that breaks one of its two constraints with the
  error of that constraint, the algorithm first and the key type second, as the
  specification lists them. It throws the unsupported-algorithm error when the algorithm
  name of \<open>h\<close> is neither \<^verbatim>\<open>ECDH\<close> nor \<^verbatim>\<open>ECDSA\<close> (the code compares the name in
  upper case), and the invalid-key-type error when \<open>h\<close>, of one of the two algorithms, is
  not a public key. In both cases no identity is returned; \<^verbatim>\<open>create\<close> reads and writes
  nothing but the object it was about to return. The code throws plain \<^verbatim>\<open>Error\<close> objects,
  told apart by their messages.
\<close>

theorem create_rejects:
  "(\<not> (toUpperCase (algorithm_name h) = ''ECDH'' \<or> toUpperCase (algorithm_name h) = ''ECDSA'') \<longrightarrow>
      ECPublicKey_create I h = Inl UnsupportedAlgorithmError) \<and>
   ((toUpperCase (algorithm_name h) = ''ECDH'' \<or> toUpperCase (algorithm_name h) = ''ECDSA'') \<and>
    type h \<noteq> type_public \<longrightarrow>
      ECPublicKey_create I h = Inl InvalidKeyTypeError)"
  by (simp add: ECPublicKey_create_def)

theorem create_rejects_witness:
  "ECPublicKey_create demo_keys \<lparr>algorithm_name = ''HMAC'', type = type_secret, handle = ([], [])\<rparr> =
     Inl UnsupportedAlgorithmError \<and>
   ECPublicKey_create demo_keys \<lparr>algorithm_name = ''ecdh'', type = type_private, handle = ([], [])\<rparr> =
     Inl InvalidKeyTypeError"
  using create_rejects[of "\<lparr>algorithm_name = ''HMAC'', type = type_secret, handle = ([], [])\<rparr>" demo_keys]
    create_rejects[of "\<lparr>algorithm_name = ''ecdh'', type = type_private, handle = ([], [])\<rparr>" demo_keys]
  by (simp add: toUpperCase_def upper_char_def)

text \<open>
  C8. \<^verbatim>\<open>a.isEqual(v)\<close> is true exactly when \<open>v\<close> is an instance of the class whose
  serialization equals that of \<open>a\<close> byte for byte. The native handles and the identifiers
  play no part: replacing them on either side changes nothing.
\<close>

theorem isEqual_serialization:
  "(ECPublicKey_isEqual a v \<longleftrightarrow> (\<exists>b. v = Instance b \<and> serialized b = serialized a)) \<and>
   ECPublicKey_isEqual (a\<lparr>key := k, id_hex := i\<rparr>) (Instance (b\<lparr>key := k', id_hex := i'\<rparr>)) =
     ECPublicKey_isEqual a (Instance b)"
  by (cases v) (auto simp: ECPublicKey_isEqual_def utils_isEqual_iff)

theorem isEqual_serialization_witness:
  "ECPublicKey_isEqual
     \<lparr>id_hex = ''0f'', key = \<lparr>algorithm_name = ''ECDH'', type = type_public, handle = (1 :: nat)\<rparr>,
      serialized = [4, 5, 6]\<rparr>
     (Instance \<lparr>id_hex = ''a0'', key = \<lparr>algorithm_name = ''ECDSA'', type = type_public, handle = 2\<rparr>,
                serialized = [4, 5, 6]\<rparr>) \<and>
   \<not> ECPublicKey_isEqual
     \<lparr>id_hex = ''0f'', key = \<lparr>algorithm_name = ''ECDH'', type = type_public, handle = (1 :: nat)\<rparr>,
      serialized = [4, 5, 6]\<rparr>
     (Instance \<lparr>id_hex = ''0f'', key = \<lparr>algorithm_name = ''ECDH'', type = type_public, handle = 1\<rparr>,
                serialized = [4, 5, 7]\<rparr>) \<and>
   \<not> ECPublicKey_isEqual
     \<lparr>id_hex = ''0f'', key = \<lparr>algorithm_name = ''ECDH'', type = type_public, handle = (1 :: nat)\<rparr>,
      serialized = [4, 5, 6]\<rparr>
     Object"
  using isEqual_serialization[of
      "\<lparr>id_hex = ''0f'', key = \<lparr>algorithm_name = ''ECDH'', type = type_public, handle = (1 :: nat)\<rparr>,
        serialized = [4, 5, 6]\<rparr>"
      "Instance \<lparr>id_hex = ''a0'', key = \<lparr>algorithm_name = ''ECDSA'', type = type_public, handle = 2\<rparr>,
                serialized = [4, 5, 6]\<rparr>"]
    isEqual_serialization[of
      "\<lparr>id_hex = ''0f'', key = \<lparr>algorithm_name = ''ECDH'', type = type_public, handle = (1 :: nat)\<rparr>,
        serialized = [4, 5, 6]\<rparr>"
      "Instance \<lparr>id_hex = ''0f'', key = \<lparr>algorithm_name = ''ECDH'', type = type_public, handle = 1\<rparr>,
                serialized = [4, 5, 7]\<rparr>"]
    isEqual_serialization[of
      "\<lparr>id_hex = ''0f'', key = \<lparr>algorithm_name = ''ECDH'', type = type_public, handle = (1 :: nat)\<rparr>,
        serialized = [4, 5, 6]\<rparr>" Object]
  by simp

text \<open>
  C9. Importing the serialization of a valid identity is to give an equal identity, for
  either kind of key. For the key-agreement kind the code does not: \<^verbatim>\<open>importKey\<close> asks
  the provider for a public key with the usage \<^verbatim>\<open>deriveBits\<close> (line 225), and a provider
  that keeps the rule of the Web Cryptography standard, under which a public \<^verbatim>\<open>ECDH\<close>
  key takes no usages, rejects that call. On every such provider
  \<^verbatim>\<open>importKey(bytes, "ECDH")\<close> throws, whatever the bytes, and no identity is produced.
  The signature kind, imported with the usage \<^verbatim>\<open>verify\<close>, is not affected: on the same
  provider the serialization of the base point of P-256 imports to an identity with that
  serialization, and importing the serialization again gives an equal identity.
\<close>

theorem importKey_ECDH_rejected:
  assumes "\<forall>jwk params extractable usages.
             params_name params = ''ECDH'' \<and> usages \<noteq> [] \<longrightarrow>
             isl (subtle_importKey I ''jwk'' jwk params extractable usages)"
  shows "isl (ECPublicKey_importKey I bytes ECDH)"
proof -
  let ?jwk = "\<lparr>jwk_kty = ''EC'', jwk_crv = Curve_NAMED_CURVE I,
               jwk_x = Convert_ToBase64Url I (take 32 bytes),
               jwk_y = Convert_ToBase64Url I (drop 32 bytes)\<rparr>"
  let ?params = "\<lparr>params_name = ECKeyType_name ECDH, params_namedCurve = Curve_NAMED_CURVE I\<rparr>"
  from assms have "isl (subtle_importKey I ''jwk'' ?jwk ?params True [''deriveBits''])"
    by simp
  then obtain e where "subtle_importKey I ''jwk'' ?jwk ?params True [''deriveBits''] = Inl e"
    by (cases "subtle_importKey I ''jwk'' ?jwk ?params True [''deriveBits'']") simp_all
  then show ?thesis by (simp add: ECPublicKey_importKey_def)
qed

theorem importKey_ECDH_rejected_witness:
  "\<exists>k. ECPublicKey_importKey std_keys P256_G ECDSA = Inr k \<and>
       ECPublicKey_serialize k = P256_G \<and>
       (\<exists>k'. ECPublicKey_importKey std_keys (ECPublicKey_serialize k) ECDSA = Inr k' \<and>
             ECPublicKey_isEqual k' (Instance k)) \<and>
       isl (ECPublicKey_importKey std_keys (ECPublicKey_serialize k) ECDH) \<and>
       ECPublicKey_importKey std_keys (ECPublicKey_serialize k) ECDH = Inl (Error ''SyntaxError'')"
proof -
  have len: "length P256_G = 64" by (simp add: P256_G_def)
  have rule: "\<forall>jwk params extractable usages.
      params_name params = ''ECDH'' \<and> usages \<noteq> [] \<longrightarrow>
      isl (subtle_importKey std_keys ''jwk'' jwk params extractable usages)"
    by (simp add: std_keys_def std_importKey_def)
  have thrown: "ECPublicKey_importKey std_keys P256_G ECDH = Inl (Error ''SyntaxError'')"
    by (simp add: ECPublicKey_importKey_def std_keys_def std_importKey_def)
  from std_keys_importKey_ECDSA[OF len] importKey_ECDH_rejected[OF rule, of P256_G] thrown
  show ?thesis by (simp add: ECPublicKey_serialize_def isEqual_Instance)
qed

text \<open>
  C10. A request below the counter touches nothing. On a receiving chain whose counter is
  \<open>n\<close>, \<^verbatim>\<open>getKey(c)\<close> and \<^verbatim>\<open>decrypt(message, c)\<close> with \<open>c < n\<close> leave root key,
  counter and cache exactly as they were, and \<^verbatim>\<open>getKey\<close> returns the cache entry at
  index \<open>c\<close>. On every instance that a history of calls has made of a new chain that entry
  is a key cached before, and \<^verbatim>\<open>decrypt\<close> expands it. All of this holds for every
  provider \<open>Q\<close> the call could run on, also one unrelated to the provider \<open>P\<close> that built
  the state: the call makes no advance.
\<close>

theorem cached_key_frame:
  assumes "c < counter this"
  shows "snd (getKey Q this c) = this \<and>
         snd (ReceivingRatchet_decrypt Q this message c) = this \<and>
         fst (getKey Q this c) = Inr (js_index (keys this) c) \<and>
         (this = receiver_after P rk history \<longrightarrow>
            fst (getKey Q this c) = Inr (Some (keys this ! c)) \<and>
            fst (ReceivingRatchet_decrypt Q this message c) =
              await (decrypt_keys Q (Some (keys this ! c))) (\<lambda>(aesKey, hmacKey, iv).
              await (Secret_decrypt Q aesKey message iv) (\<lambda>pt.
              Inr \<lparr>cipherText = pt, hmacKey = hmacKey\<rparr>)))"
proof -
  have cached: "getKey Q this c = (Inr (js_index (keys this) c), this)"
    using assms by (rule getKey_cached)
  then have dec: "ReceivingRatchet_decrypt Q this message c =
      (await (decrypt_keys Q (js_index (keys this) c)) (\<lambda>(aesKey, hmacKey, iv).
       await (Secret_decrypt Q aesKey message iv) (\<lambda>pt.
       Inr \<lparr>cipherText = pt, hmacKey = hmacKey\<rparr>)), this)"
    by (simp add: decrypt_unfold)
  have entry: "js_index (keys this) c = Some (keys this ! c)"
    if "this = receiver_after P rk history"
  proof -
    have "chain_state P rk this" using that by (simp add: receiver_after_chain_state)
    then have "length (keys this) = counter this" by (simp add: chain_state_def)
    with assms show ?thesis by (simp add: js_index_def)
  qed
  show ?thesis
  proof (intro conjI impI)
    show "snd (getKey Q this c) = this" by (simp add: cached)
    show "snd (ReceivingRatchet_decrypt Q this message c) = this" by (simp add: dec)
    show "fst (getKey Q this c) = Inr (js_index (keys this) c)" by (simp add: cached)
  next
    assume "this = receiver_after P rk history"
    then show "fst (getKey Q this c) = Inr (Some (keys this ! c))"
      using cached entry by simp
  next
    assume "this = receiver_after P rk history"
    then show "fst (ReceivingRatchet_decrypt Q this message c) =
              await (decrypt_keys Q (Some (keys this ! c))) (\<lambda>(aesKey, hmacKey, iv).
              await (Secret_decrypt Q aesKey message iv) (\<lambda>pt.
              Inr \<lparr>cipherText = pt, hmacKey = hmacKey\<rparr>))"
      using dec entry by simp
  qed
qed

theorem cached_key_frame_witness:
  "getKey demo_limited (receiver_after demo [7] [Decrypt [0] 2]) 1 =
     (Inr (Some [1, 2, 7]), \<lparr>counter = 3, rootKey = [2, 2, 2, 7], keys = [[1, 7], [1, 2, 7], [1, 2, 2, 7]]\<rparr>) \<and>
   snd (ReceivingRatchet_decrypt demo (receiver_after demo [7] [Decrypt [0] 2]) [9] 1) =
     \<lparr>counter = 3, rootKey = [2, 2, 2, 7], keys = [[1, 7], [1, 2, 7], [1, 2, 2, 7]]\<rparr>"
proof -
  have s: "receiver_after demo [7] [Decrypt [0] 2] =
      \<lparr>counter = 3, rootKey = [2, 2, 2, 7], keys = [[1, 7], [1, 2, 7], [1, 2, 2, 7]]\<rparr>"
    by code_simp
  have c: "1 < counter (receiver_after demo [7] [Decrypt [0] 2])" by (simp add: s)
  from cached_key_frame[OF c, of demo_limited "[9]" demo "[7]" "[Decrypt [0] 2]"]
    cached_key_frame[OF c, of demo "[9]" demo "[7]" "[Decrypt [0] 2]"] s
  show ?thesis by (simp add: prod_eq_iff js_index_def)
qed

end
